theory Spec2Isabelle
  imports Main "HOL-Library.AList"
begin

section \<open>Collections\<close>

text \<open>
  The code keeps its sets and dictionaries in the collections of the
  \<^verbatim>\<open>typescript-collections\<close> package. A dictionary built without a key
  function, as all of them are here, files each pair under the string that the key's
  \<^verbatim>\<open>toString()\<close> gives (behind a fixed prefix, left out here): two keys with the
  same string are the same key. A set is such a dictionary of its elements. Both
  iterate in insertion order. So a set is the list of its elements, and a dictionary
  is an association list from the string to the key object and the value; every
  operation that takes a key or an element takes the function that gives its string.
  A component key is a member of the TypeScript enum \<^verbatim>\<open>ModelComponent\<close>, that is
  a number, whose string is its decimal numeral.
\<close>

type_synonym ModelComponent = nat

type_synonym 'a Collections_Set = "'a list"

type_synonym ('k, 'v) Collections_Dictionary = "(string \<times> 'k \<times> 'v) list"

definition digit :: "nat \<Rightarrow> char" where
  "digit n = ''0123456789'' ! n"

fun Number_toString :: "nat \<Rightarrow> string" where
  "Number_toString n =
     (if n < 10 then [digit n] else Number_toString (n div 10) @ [digit (n mod 10)])"

definition Set_contains :: "('a \<Rightarrow> string) \<Rightarrow> 'a Collections_Set \<Rightarrow> 'a \<Rightarrow> bool" where
  "Set_contains toStr s element = (toStr element \<in> set (map toStr s))"

definition Set_add :: "('a \<Rightarrow> string) \<Rightarrow> 'a \<Rightarrow> 'a Collections_Set \<Rightarrow> 'a Collections_Set" where
  "Set_add toStr element s = (if Set_contains toStr s element then s else s @ [element])"

definition Dictionary_getValue ::
  "('k \<Rightarrow> string) \<Rightarrow> ('k, 'v) Collections_Dictionary \<Rightarrow> 'k \<Rightarrow> 'v option" where
  "Dictionary_getValue toStr d k = map_option snd (map_of d (toStr k))"

definition Dictionary_setValue ::
  "('k \<Rightarrow> string) \<Rightarrow> 'k \<Rightarrow> 'v \<Rightarrow> ('k, 'v) Collections_Dictionary \<Rightarrow>
     ('k, 'v) Collections_Dictionary" where
  "Dictionary_setValue toStr k v d = AList.update (toStr k) (k, v) d"

definition Dictionary_isEmpty :: "('k, 'v) Collections_Dictionary \<Rightarrow> bool" where
  "Dictionary_isEmpty d = (length d \<le> 0)"

section \<open>The data store\<close>

text \<open>
  Modelled from the spec: the class \<^verbatim>\<open>ModelData\<close> (imported from
  \<^verbatim>\<open>./modelData\<close>, which is not among the verified sources). Section 3 of the specification:
  a mapping from component key to component value, at most one value per key, and a
  change buffer holding the keys written since the buffer was last drained. A value is
  opaque; \<open>None\<close> is JavaScript's \<^verbatim>\<open>undefined\<close>, which is what a lookup of an
  absent key returns.
\<close>

record 'v ModelData =
  components :: "ModelComponent \<Rightarrow> 'v option"
  changeBuffer :: "ModelComponent Collections_Set"

text \<open>
  Modelled from the spec: \<^verbatim>\<open>ModelData.getComponent\<close>, section 4.1:
  \<^verbatim>\<open>get(key) -> value-or-absent\<close>.
\<close>

definition getComponent :: "'v ModelData \<Rightarrow> ModelComponent \<Rightarrow> 'v option" where
  "getComponent d component = components d component"

text \<open>
  Modelled from the spec: \<^verbatim>\<open>ModelData.setComponent\<close>, section 4.1:
  \<^verbatim>\<open>set(key, value)\<close> records the key in the change buffer and overwrites the
  prior value. The value may be \<open>None\<close>: storing \<^verbatim>\<open>undefined\<close> leaves the key
  without a value.
\<close>

definition setComponent :: "ModelComponent \<Rightarrow> 'v option \<Rightarrow> 'v ModelData \<Rightarrow> 'v ModelData" where
  "setComponent component v d =
     d\<lparr>components := (components d)(component := v),
       changeBuffer := Set_add Number_toString component (changeBuffer d)\<rparr>"

text \<open>
  Modelled from the spec: \<^verbatim>\<open>ModelData.drainChangeBuffer\<close>, section 4.1:
  returns the set of keys in the buffer and clears the buffer.
\<close>

definition drainChangeBuffer :: "'v ModelData \<Rightarrow> ModelComponent Collections_Set \<times> 'v ModelData" where
  "drainChangeBuffer d = (changeBuffer d, d\<lparr>changeBuffer := []\<rparr>)"

section \<open>Tasks\<close>

text \<open>
  Modelled from the spec: the class \<^verbatim>\<open>ModelTaskMetadata\<close> (imported from
  \<^verbatim>\<open>./modelTaskMetadata\<close>, not among the verified sources). Section 3: a read set, a write
  set and a priority. The priority is kept as the caller gave it; \<open>None\<close> is an
  omitted optional argument.
\<close>

record ModelTaskMetadata =
  readSet :: "ModelComponent Collections_Set"
  writeSet :: "ModelComponent Collections_Set"
  priority :: "int option"

text \<open>
  Modelled from the spec: the classes \<^verbatim>\<open>Task\<close>, \<^verbatim>\<open>OpaqueTask\<close> and
  \<^verbatim>\<open>ProcessorTask\<close> (imported from \<^verbatim>\<open>./task\<close> and \<^verbatim>\<open>./taskProcessor\<close>, not
  among the verified sources). Section 3: a task is an effect plus metadata. The constructors
  are called with the effect first and the metadata second. The metadata field holds a
  reference, which TypeScript lets be \<^verbatim>\<open>null\<close>: \<open>None\<close> here. A task also has
  the field \<^verbatim>\<open>index\<close> that \<^verbatim>\<open>TaskInstruction.toString\<close> reads: a number, or
  \<^verbatim>\<open>undefined\<close> (\<open>None\<close>) as long as nothing has set it.
\<close>

record ('e, 'm) Task =
  execute :: 'e
  metadata :: "'m option"
  index :: "nat option"

datatype error = Error string | TypeError

section \<open>Task instructions\<close>

text \<open>
  A \<^verbatim>\<open>TaskInstruction\<close> is an object with identity: other instructions refer to
  it from their dictionaries and sets, and \<^verbatim>\<open>addDependency\<close> and
  \<^verbatim>\<open>transferOutput\<close> change objects other than \<^verbatim>\<open>this\<close>. The model therefore
  keeps the objects in a store and names them by address; a reference always denotes
  an object, so the store is a total function. The field \<^verbatim>\<open>data\<close> is a reference
  to a \<^verbatim>\<open>ModelData\<close> object, which lives in a second store, so that two
  instructions may share one snapshot object as they may in the code. Where an
  instruction is a key of a dictionary or an element of a set, the collection files it
  under its \<^verbatim>\<open>toString()\<close>, the text \<^verbatim>\<open>Instruction\<close> followed by the index of
  its task, and keeps the reference.
\<close>

record 't TaskInstruction =
  task :: 't
  data :: nat
  dependencies :: "(nat, ModelComponent Collections_Set) Collections_Dictionary"
  invertedDependencies :: "nat Collections_Set"

record ('t, 'v) heap =
  instructions :: "nat \<Rightarrow> 't TaskInstruction"
  snapshots :: "nat \<Rightarrow> 'v ModelData"

definition TaskInstruction_new :: "'t \<Rightarrow> nat \<Rightarrow> 't TaskInstruction" where
  "TaskInstruction_new t d =
     \<lparr>task = t, data = d, dependencies = [], invertedDependencies = []\<rparr>"

definition TaskInstruction_toString :: "('e, 'm) Task TaskInstruction \<Rightarrow> string" where
  "TaskInstruction_toString this =
     ''Instruction '' @
       (case index (task this) of None \<Rightarrow> ''undefined'' | Some n \<Rightarrow> Number_toString n)"

text \<open>The string under which the collections file the instruction at an address.\<close>

definition instructionKey :: "(('e, 'm) Task, 'v) heap \<Rightarrow> nat \<Rightarrow> string" where
  "instructionKey h this = TaskInstruction_toString (instructions h this)"

definition getPriority :: "('e, ModelTaskMetadata) Task TaskInstruction \<Rightarrow> error + int option" where
  "getPriority instruction =
     (case metadata (task instruction) of
        None \<Rightarrow> Inl TypeError
      | Some m \<Rightarrow> Inr (priority m))"

definition isEligibleForExecution :: "'t TaskInstruction \<Rightarrow> bool" where
  "isEligibleForExecution this = Dictionary_isEmpty (dependencies this)"

definition addDependency ::
  "nat \<Rightarrow> nat \<Rightarrow> ModelComponent \<Rightarrow> (('e, 'm) Task, 'v) heap \<Rightarrow> (('e, 'm) Task, 'v) heap" where
  "addDependency this dependency component h =
     (let toStr = instructionKey h;
          componentSet =
            (case Dictionary_getValue toStr (dependencies (instructions h this)) dependency of
               None \<Rightarrow> []
             | Some s \<Rightarrow> s);
          componentSet = Set_add Number_toString component componentSet;
          h = h\<lparr>instructions := (instructions h)
                (this := (instructions h this)
                   \<lparr>dependencies :=
                      Dictionary_setValue toStr dependency componentSet
                        (dependencies (instructions h this))\<rparr>)\<rparr>
      in h\<lparr>instructions := (instructions h)
             (dependency := (instructions h dependency)
                \<lparr>invertedDependencies :=
                   Set_add toStr this (invertedDependencies (instructions h dependency))\<rparr>)\<rparr>)"

definition transferComponent :: "nat \<Rightarrow> nat \<Rightarrow> ModelComponent \<Rightarrow> ('t, 'v) heap \<Rightarrow> ('t, 'v) heap" where
  "transferComponent this target component h =
     h\<lparr>snapshots := (snapshots h)
         (data (instructions h target) :=
            setComponent component
              (getComponent (snapshots h (data (instructions h this))) component)
              (snapshots h (data (instructions h target))))\<rparr>"

definition transferOutput ::
  "nat \<Rightarrow> nat \<Rightarrow> (('e, 'm) Task, 'v) heap \<Rightarrow> error + (('e, 'm) Task, 'v) heap" where
  "transferOutput this target h =
     (case Dictionary_getValue (instructionKey h) (dependencies (instructions h target)) this of
        None \<Rightarrow> Inl (Error ''Cannot transfer components to independent instruction.'')
      | Some componentsToTransfer \<Rightarrow>
          Inr (fold (transferComponent this target) componentsToTransfer h))"

section \<open>The model\<close>

text \<open>
  Modelled from the spec: \<^verbatim>\<open>new ModelData()\<close>, the empty store: no component
  has a value and nothing has been written.
\<close>

definition ModelData_new :: "'v ModelData" where
  "ModelData_new = \<lparr>components = (\<lambda>component. None), changeBuffer = []\<rparr>"

text \<open>
  Modelled from the spec: \<^verbatim>\<open>new ModelTaskMetadata(readSet, writeSet, priority)\<close>.
  Each of the two sets is given as a set or as an array; the metadata holds sets
  (section 3), so an array is read into a set.
\<close>

definition ModelTaskMetadata_new ::
  "ModelComponent list \<Rightarrow> ModelComponent list \<Rightarrow> int option \<Rightarrow> ModelTaskMetadata" where
  "ModelTaskMetadata_new rs ws p =
     \<lparr>readSet = fold (Set_add Number_toString) rs [],
      writeSet = fold (Set_add Number_toString) ws [], priority = p\<rparr>"

text \<open>
  Modelled from the spec: \<^verbatim>\<open>new OpaqueTask(execute, metadata)\<close> and the
  constructor of \<^verbatim>\<open>ProcessorTask\<close>, reached by \<^verbatim>\<open>super(execute, metadata)\<close>:
  both store their two arguments, and neither is given an index.
\<close>

definition OpaqueTask_new :: "'e \<Rightarrow> 'm option \<Rightarrow> ('e, 'm) Task" where
  "OpaqueTask_new e m = \<lparr>execute = e, metadata = m, index = None\<rparr>"

definition ProcessorTask_new :: "'e \<Rightarrow> 'm option \<Rightarrow> ('e, 'm) Task" where
  "ProcessorTask_new e m = \<lparr>execute = e, metadata = m, index = None\<rparr>"

text \<open>
  Modelled from the spec: the class \<^verbatim>\<open>TaskProcessor\<close> (imported from
  \<^verbatim>\<open>./taskProcessor\<close>, not among the verified sources). The model hands its data store to
  the processor it creates, so every processor holds the store; what else it holds
  depends on the discipline and is the extension of this record.
\<close>

record 'v TaskProcessor =
  processorData :: "'v ModelData"

text \<open>
  An observer takes a change set and returns the tasks to process. The calls the model
  makes on its collaborators (an observer, the processor's \<^verbatim>\<open>schedule\<close>) are
  recorded in the order they happen in the field \<open>calls\<close>, which the code does not
  have: it is there to state in which order the calls are made.
\<close>

type_synonym 't ModelObserver = "ModelComponent Collections_Set \<Rightarrow> 't list"

datatype 't call =
  Observer_call nat "ModelComponent Collections_Set"
| Schedule_call 't

record ('t, 'v, 'z) Model =
  tasks :: "('v, 'z) TaskProcessor_scheme"
  observers :: "'t ModelObserver list"
  calls :: "'t call list"

text \<open>
  The constructor. \<open>newProcessor\<close> stands for
  \<^verbatim>\<open>new OutOfOrderProcessor(wellDefinedData, task => task, task => task, hook)\<close>; the
  hook, a closure over the model, is \<open>taskCompleted\<close> below.
\<close>

definition Model_new ::
  "('v ModelData \<Rightarrow> ('v, 'z) TaskProcessor_scheme) \<Rightarrow> 'v ModelData option \<Rightarrow> ('t, 'v, 'z) Model" where
  "Model_new newProcessor d =
     (let wellDefinedData = (case d of None \<Rightarrow> ModelData_new | Some d' \<Rightarrow> d')
      in \<lparr>tasks = newProcessor wellDefinedData, observers = [], calls = []\<rparr>)"

text \<open>
  \<^verbatim>\<open>createTask\<close> is a static method. It is written in state-passing form, over
  any program state \<open>s\<close>, so that what it leaves alone can be stated.
\<close>

definition createTask ::
  "'e \<Rightarrow> ModelComponent list \<Rightarrow> ModelComponent list \<Rightarrow> int option \<Rightarrow> 's \<Rightarrow>
     ('e, ModelTaskMetadata) Task \<times> 's" where
  "createTask execute' readSet' writeSet' priority' s =
     (OpaqueTask_new execute' (Some (ModelTaskMetadata_new readSet' writeSet' priority')), s)"

definition registerObserver :: "'t ModelObserver \<Rightarrow> ('t, 'v, 'z) Model \<Rightarrow> ('t, 'v, 'z) Model" where
  "registerObserver observer this = this\<lparr>observers := observers this @ [observer]\<rparr>"

text \<open>
  \<open>schedule\<close> is the processor's \<^verbatim>\<open>schedule\<close> method, a parameter: the class
  that implements it is not among the verified sources.
\<close>

definition scheduleTask ::
  "('t \<Rightarrow> ('v, 'z) TaskProcessor_scheme \<Rightarrow> ('v, 'z) TaskProcessor_scheme) \<Rightarrow>
     't \<Rightarrow> ('t, 'v, 'z) Model \<Rightarrow> ('t, 'v, 'z) Model" where
  "scheduleTask schedule newTask this =
     this\<lparr>tasks := schedule newTask (tasks this),
          calls := calls this @ [Schedule_call newTask]\<rparr>"

definition notifyObserver ::
  "('t \<Rightarrow> ('v, 'z) TaskProcessor_scheme \<Rightarrow> ('v, 'z) TaskProcessor_scheme) \<Rightarrow>
     ModelComponent Collections_Set \<Rightarrow> nat \<times> 't ModelObserver \<Rightarrow>
     ('t, 'v, 'z) Model \<Rightarrow> ('t, 'v, 'z) Model" where
  "notifyObserver schedule changeBuffer' element this =
     fold (scheduleTask schedule) (snd element changeBuffer')
       (this\<lparr>calls := calls this @ [Observer_call (fst element) changeBuffer']\<rparr>)"

definition notifyObservers ::
  "('t \<Rightarrow> ('v, 'z) TaskProcessor_scheme \<Rightarrow> ('v, 'z) TaskProcessor_scheme) \<Rightarrow>
     ModelComponent Collections_Set \<Rightarrow> ('t, 'v, 'z) Model \<Rightarrow> ('t, 'v, 'z) Model" where
  "notifyObservers schedule changeBuffer' this =
     fold (notifyObserver schedule changeBuffer') (enumerate 0 (observers this)) this"

text \<open>
  The completion hook the constructor gives to the processor:
  \<^verbatim>\<open>task => this.notifyObservers(wellDefinedData.drainChangeBuffer())\<close>. The store
  is the one the processor holds.
\<close>

definition taskCompleted ::
  "('t \<Rightarrow> ('v, 'z) TaskProcessor_scheme \<Rightarrow> ('v, 'z) TaskProcessor_scheme) \<Rightarrow>
     ('t, 'v, 'z) Model \<Rightarrow> ('t, 'v, 'z) Model" where
  "taskCompleted schedule this =
     (let (drained, wellDefinedData) = drainChangeBuffer (processorData (tasks this))
      in notifyObservers schedule drained
           (this\<lparr>tasks := (tasks this)\<lparr>processorData := wellDefinedData\<rparr>\<rparr>))"

section \<open>Persistence\<close>

record 'b FileModule =
  getType :: ModelComponent
  getFilename :: string
  getFile :: 'b

definition FileModule_new :: "ModelComponent \<Rightarrow> string \<Rightarrow> 'b \<Rightarrow> 'b FileModule" where
  "FileModule_new type' filename file = \<lparr>getType = type', getFilename = filename, getFile = file\<rparr>"

text \<open>
  The effect of a persistence task changes the store it is given and may call
  \<^verbatim>\<open>io.writeToFile(module, part)\<close>; it returns the store and the calls it made.
  The class \<^verbatim>\<open>Component\<close> (imported from \<^verbatim>\<open>./component\<close>) is not among the
  verified sources: its constructor and its methods \<^verbatim>\<open>setPart\<close> and \<^verbatim>\<open>getPart\<close> are
  parameters.
\<close>

type_synonym ('v, 'b, 'r) persistence_effect =
  "'v ModelData \<Rightarrow> 'v ModelData \<times> ('b FileModule \<times> 'r) list"

definition LoadTask ::
  "'v \<Rightarrow> (string \<Rightarrow> 'r \<Rightarrow> 'v \<Rightarrow> 'v) \<Rightarrow> 'r \<Rightarrow> 'b FileModule \<Rightarrow>
     (('v, 'b, 'r) persistence_effect, ModelTaskMetadata) Task" where
  "LoadTask newComponent setPart result module =
     ProcessorTask_new
       (\<lambda>d.
          let component = getComponent d (getType module);
              component = (case component of None \<Rightarrow> newComponent | Some c \<Rightarrow> c);
              component = setPart (getFilename module) result component
          in (setComponent (getType module) (Some component) d, []))
       None"

definition SaveTask ::
  "(string \<Rightarrow> 'v \<Rightarrow> 'r) \<Rightarrow> 'b FileModule \<Rightarrow>
     (('v, 'b, 'r) persistence_effect, ModelTaskMetadata) Task" where
  "SaveTask getPart module =
     ProcessorTask_new
       (\<lambda>d.
          case getComponent d (getType module) of
            None \<Rightarrow> (d, [])
          | Some component \<Rightarrow> (d, [(module, getPart (getFilename module) component)]))
       None"

section \<open>The out-of-order processor\<close>

text \<open>
  Modelled from the spec: the class \<^verbatim>\<open>OutOfOrderProcessor\<close> (imported from
  \<^verbatim>\<open>./outOfOrderProcessor\<close>, not among the verified sources). Section 4.3: its state is a
  ready pool, a pending pool and the last-writer index; it also holds the store of
  the instructions it has created, which are the addresses below
  \<open>instructionCount\<close>.
\<close>

record ('t, 'v) OutOfOrderProcessor = "'v TaskProcessor" +
  memory :: "('t, 'v) heap"
  instructionCount :: nat
  readyPool :: "nat list"
  pendingPool :: "nat list"
  lastWriter :: "(ModelComponent, nat) Collections_Dictionary"

text \<open>
  Modelled from the spec: the constructor of \<^verbatim>\<open>OutOfOrderProcessor\<close>. Nothing is
  scheduled yet: no instruction, empty pools, no last writer. \<open>mem\<close> is the object
  store the instructions will be allocated in.
\<close>

definition OutOfOrderProcessor_new ::
  "('t, 'v) heap \<Rightarrow> 'v ModelData \<Rightarrow> ('t, 'v) OutOfOrderProcessor" where
  "OutOfOrderProcessor_new mem d =
     \<lparr>processorData = d, memory = mem, instructionCount = 0,
      readyPool = [], pendingPool = [], lastWriter = []\<rparr>"

text \<open>
  Modelled from the spec: step 2 of \<^verbatim>\<open>schedule\<close> in section 4.3, for one key of
  the read set: if the last-writer index has a producer for the key, the new
  instruction calls \<^verbatim>\<open>addDependency(producer, key)\<close>.
\<close>

definition addReadDependency ::
  "(ModelComponent, nat) Collections_Dictionary \<Rightarrow> nat \<Rightarrow> ModelComponent \<Rightarrow>
     (('e, 'm) Task, 'v) heap \<Rightarrow> (('e, 'm) Task, 'v) heap" where
  "addReadDependency writers instruction key h =
     (case Dictionary_getValue Number_toString writers key of
        None \<Rightarrow> h
      | Some producer \<Rightarrow> addDependency instruction producer key h)"

text \<open>
  Modelled from the spec: \<^verbatim>\<open>schedule(task)\<close> of section 4.3. Step 1 creates the
  instruction with a private snapshot of the shared store, step 2 adds a dependency
  for each key of the read set that has a last writer, step 3 makes the instruction
  the last writer of each key of its write set, step 4 puts it in the ready pool if
  it is eligible and in the pending pool otherwise. Reading the sets of a task whose
  metadata is \<^verbatim>\<open>null\<close> is a \<^verbatim>\<open>TypeError\<close>.
\<close>

definition OutOfOrderProcessor_schedule ::
  "('e, ModelTaskMetadata) Task \<Rightarrow> (('e, ModelTaskMetadata) Task, 'v) OutOfOrderProcessor \<Rightarrow>
     error + (('e, ModelTaskMetadata) Task, 'v) OutOfOrderProcessor" where
  "OutOfOrderProcessor_schedule newTask this =
     (case metadata newTask of
        None \<Rightarrow> Inl TypeError
      | Some m \<Rightarrow>
          let instruction = instructionCount this;
              h = memory this;
              h = h\<lparr>snapshots := (snapshots h)(instruction := processorData this)\<rparr>;
              h = h\<lparr>instructions := (instructions h)
                    (instruction := TaskInstruction_new newTask instruction)\<rparr>;
              h = fold (addReadDependency (lastWriter this) instruction) (readSet m) h;
              writers = fold (\<lambda>key. Dictionary_setValue Number_toString key instruction)
                          (writeSet m) (lastWriter this);
              eligible = isEligibleForExecution (instructions h instruction)
          in Inr (this\<lparr>memory := h,
                       instructionCount := Suc instruction,
                       readyPool :=
                         (if eligible then readyPool this @ [instruction] else readyPool this),
                       pendingPool :=
                         (if eligible then pendingPool this else pendingPool this @ [instruction]),
                       lastWriter := writers\<rparr>))"

text \<open>
  A sequence of schedule operations; an error ends it, as the exception would.
\<close>

fun scheduleAll ::
  "('e, ModelTaskMetadata) Task list \<Rightarrow> (('e, ModelTaskMetadata) Task, 'v) OutOfOrderProcessor \<Rightarrow>
     error + (('e, ModelTaskMetadata) Task, 'v) OutOfOrderProcessor" where
  "scheduleAll [] this = Inr this"
| "scheduleAll (newTask # rest) this =
     (case OutOfOrderProcessor_schedule newTask this of
        Inl e \<Rightarrow> Inl e
      | Inr this' \<Rightarrow> scheduleAll rest this')"

text \<open>
  The dependency graph over the instructions of a processor: an edge from an
  instruction to each producer that is the key of an entry in its dependency mapping.
\<close>

definition dependencyEdges :: "('t, 'v) OutOfOrderProcessor \<Rightarrow> (nat \<times> nat) list" where
  "dependencyEdges this =
     concat (map (\<lambda>instruction.
                    map (\<lambda>entry. (instruction, fst (snd entry)))
                      (dependencies (instructions (memory this) instruction)))
               [0 ..< instructionCount this])"

text \<open>
  The remark of section 4.3 on cycles, as a property of a processor state: the
  last-writer index and every dependency edge point to an instruction created
  earlier.
\<close>

definition backwardOnly :: "('t, 'v) OutOfOrderProcessor \<Rightarrow> bool" where
  "backwardOnly this =
     (list_all (\<lambda>entry. snd (snd entry) < instructionCount this) (lastWriter this) \<and>
      list_all (\<lambda>edge. snd edge < fst edge) (dependencyEdges this))"

section \<open>Example states\<close>

text \<open>
  A store in which every address holds a fresh instruction with a snapshot of its
  own, for a task whose index is the address; and one in which instruction 1 depends
  on instruction 0 for the components 7 and 8, the snapshot of instruction 0 holds 42
  for 7 and 43 for 8, and the snapshot of instruction 1 holds 3 for 8 and 5 for 9.
\<close>

definition blank_heap :: "((unit, unit) Task, nat) heap" where
  "blank_heap =
     \<lparr>instructions = (\<lambda>i. TaskInstruction_new ((OpaqueTask_new () None)\<lparr>index := Some i\<rparr>) i),
      snapshots = (\<lambda>i. ModelData_new)\<rparr>"

definition example_heap :: "((unit, unit) Task, nat) heap" where
  "example_heap =
     addDependency 1 0 8 (addDependency 1 0 7
       (blank_heap\<lparr>snapshots := (snapshots blank_heap)
          (0 := setComponent 8 (Some 43) (setComponent 7 (Some 42) ModelData_new),
           1 := setComponent 9 (Some 5) (setComponent 8 (Some 3) ModelData_new))\<rparr>))"

text \<open>
  The blank store, but with the task of instruction 2 given the index 0, which is
  also the index of the task of instruction 0.
\<close>

definition collision_heap :: "((unit, unit) Task, nat) heap" where
  "collision_heap =
     blank_heap\<lparr>instructions := (instructions blank_heap)
       (2 := TaskInstruction_new ((OpaqueTask_new () None)\<lparr>index := Some 0\<rparr>) 2)\<rparr>"

text \<open>
  The blank store, but with instruction 1 constructed on the snapshot object of
  instruction 0, which holds 42 for component 7 and whose change buffer has been
  drained; instruction 1 depends on instruction 0 for component 7.
\<close>

definition shared_heap :: "((unit, unit) Task, nat) heap" where
  "shared_heap =
     addDependency 1 0 7
       (blank_heap
          \<lparr>instructions := (instructions blank_heap)
             (1 := TaskInstruction_new ((OpaqueTask_new () None)\<lparr>index := Some 1\<rparr>) 0),
           snapshots := (snapshots blank_heap)
             (0 := snd (drainChangeBuffer (setComponent 7 (Some 42) ModelData_new)))\<rparr>)"

text \<open>
  A store for the instructions of a processor, and two tasks: one writes component 7,
  the other reads it.
\<close>

definition blank_memory :: "((unit, ModelTaskMetadata) Task, nat) heap" where
  "blank_memory =
     \<lparr>instructions = (\<lambda>i. TaskInstruction_new (OpaqueTask_new () None) i),
      snapshots = (\<lambda>i. ModelData_new)\<rparr>"

definition writer_task :: "(unit, ModelTaskMetadata) Task" where
  "writer_task = (fst (createTask () [] [7] None ()))\<lparr>index := Some 0\<rparr>"

definition reader_task :: "(unit, ModelTaskMetadata) Task" where
  "reader_task = (fst (createTask () [7] [] None ()))\<lparr>index := Some 1\<rparr>"

section \<open>Numbers and their strings\<close>

declare Number_toString.simps [simp del]

lemma digit_inj: "a < 10 \<Longrightarrow> b < 10 \<Longrightarrow> digit a = digit b \<Longrightarrow> a = b"
proof -
  assume a: "a < 10" and b: "b < 10" and eq: "digit a = digit b"
  have "distinct ''0123456789''" by simp
  moreover have "a < length ''0123456789''" "b < length ''0123456789''"
    using a b by simp_all
  ultimately show "a = b"
    using eq unfolding digit_def by (simp only: nth_eq_iff_index_eq)
qed

lemma Number_toString_nonempty: "Number_toString n \<noteq> []"
  by (subst Number_toString.simps) simp

lemma Number_toString_inj: "Number_toString n = Number_toString m \<Longrightarrow> n = m"
proof (induction n arbitrary: m rule: Number_toString.induct)
  case (1 n)
  show ?case
  proof (cases "n < 10")
    case small_n: True
    show ?thesis
    proof (cases "m < 10")
      case True
      with small_n "1.prems" show ?thesis
        by (simp add: Number_toString.simps [of n] Number_toString.simps [of m] digit_inj)
    next
      case False
      with small_n "1.prems" Number_toString_nonempty [of "m div 10"] show ?thesis
        by (simp add: Number_toString.simps [of n] Number_toString.simps [of m]
            Cons_eq_append_conv)
    qed
  next
    case big_n: False
    show ?thesis
    proof (cases "m < 10")
      case True
      with big_n "1.prems" Number_toString_nonempty [of "n div 10"] show ?thesis
        by (simp add: Number_toString.simps [of n] Number_toString.simps [of m]
            append_eq_Cons_conv)
    next
      case False
      with big_n "1.prems"
      have parts: "Number_toString (n div 10) = Number_toString (m div 10)"
        "digit (n mod 10) = digit (m mod 10)"
        by (simp_all add: Number_toString.simps [of n] Number_toString.simps [of m])
      from parts(1) big_n have "n div 10 = m div 10"
        by (rule "1.IH" [rotated])
      moreover from parts(2) have "n mod 10 = m mod 10"
        by (simp add: digit_inj)
      ultimately show ?thesis
        by (metis div_mult_mod_eq)
    qed
  qed
qed

lemma Number_toString_eq [simp]: "Number_toString n = Number_toString m \<longleftrightarrow> n = m"
  by (auto dest: Number_toString_inj)

lemma Set_contains_component [simp]: "Set_contains Number_toString s x \<longleftrightarrow> x \<in> set s"
  by (auto simp: Set_contains_def)

lemma set_Set_add [simp]: "set (Set_add Number_toString x s) = insert x (set s)"
  by (auto simp: Set_add_def)

lemma Set_add_contains: "Set_contains toStr (Set_add toStr x s) x"
  by (simp add: Set_add_def Set_contains_def)

section \<open>Eligibility\<close>

lemma Dictionary_isEmpty_iff: "Dictionary_isEmpty d \<longleftrightarrow> d = []"
  by (simp add: Dictionary_isEmpty_def)

lemma Dictionary_empty_dom: "d = [] \<longleftrightarrow> dom (map_of d) = {}"
  by (cases d) auto

text \<open>
  C6. An instruction is eligible for execution exactly when its dependency mapping is
  empty: the dictionary holds no pair, which is the same as nothing being filed in it
  under any key.
\<close>

theorem isEligibleForExecution_iff_no_dependencies:
  "(isEligibleForExecution this \<longleftrightarrow> dependencies this = []) \<and>
   (isEligibleForExecution this \<longleftrightarrow> dom (map_of (dependencies this)) = {}) \<and>
   (isEligibleForExecution this \<longleftrightarrow>
      (\<forall>toStr. dom (Dictionary_getValue toStr (dependencies this)) = {}))"
proof -
  have "(\<forall>toStr :: nat \<Rightarrow> string. dom (Dictionary_getValue toStr (dependencies this)) = {})
          \<longleftrightarrow> dependencies this = []"
  proof
    assume none: "\<forall>toStr :: nat \<Rightarrow> string. dom (Dictionary_getValue toStr (dependencies this)) = {}"
    show "dependencies this = []"
    proof (cases "dependencies this")
      case Nil
      then show ?thesis .
    next
      case (Cons entry rest)
      have "Dictionary_getValue (\<lambda>k. fst entry) (dependencies this) 0 = Some (snd (snd entry))"
        by (cases entry) (simp add: Cons Dictionary_getValue_def)
      then have "0 \<in> dom (Dictionary_getValue (\<lambda>k. fst entry) (dependencies this))"
        by blast
      with none show ?thesis by blast
    qed
  next
    assume "dependencies this = []"
    then show "\<forall>toStr :: nat \<Rightarrow> string. dom (Dictionary_getValue toStr (dependencies this)) = {}"
      by (simp add: Dictionary_getValue_def dom_def)
  qed
  note lookups = this
  have eligible: "isEligibleForExecution this \<longleftrightarrow> dependencies this = []"
    by (simp add: isEligibleForExecution_def Dictionary_isEmpty_iff)
  moreover have "isEligibleForExecution this \<longleftrightarrow> dom (map_of (dependencies this)) = {}"
    unfolding eligible by (rule Dictionary_empty_dom)
  moreover have "isEligibleForExecution this \<longleftrightarrow>
      (\<forall>toStr. dom (Dictionary_getValue toStr (dependencies this)) = {})"
    unfolding eligible by (rule lookups [symmetric])
  ultimately show ?thesis by blast
qed

section \<open>Transferring output\<close>

text \<open>
  The loop of \<^verbatim>\<open>transferOutput\<close> writes to one object only, the snapshot of the
  target, and never to an instruction.
\<close>

lemma transferComponent_instructions [simp]:
  "instructions (transferComponent this target component h) = instructions h"
  by (simp add: transferComponent_def)

lemma fold_transferComponent_instructions [simp]:
  "instructions (fold (transferComponent this target) cs h) = instructions h"
  by (induction cs arbitrary: h) simp_all

lemma transferComponent_other:
  "d \<noteq> data (instructions h target) \<Longrightarrow>
   snapshots (transferComponent this target component h) d = snapshots h d"
  by (simp add: transferComponent_def)

lemma fold_transferComponent_other:
  "d \<noteq> data (instructions h target) \<Longrightarrow>
   snapshots (fold (transferComponent this target) cs h) d = snapshots h d"
  by (induction cs arbitrary: h) (simp_all add: transferComponent_other)

lemma transferComponent_source:
  "components (snapshots (transferComponent this target component h) (data (instructions h this)))
   = components (snapshots h (data (instructions h this)))"
  by (simp add: transferComponent_def setComponent_def getComponent_def)

lemma fold_transferComponent_source:
  "components (snapshots (fold (transferComponent this target) cs h) (data (instructions h this)))
   = components (snapshots h (data (instructions h this)))"
proof (induction cs arbitrary: h)
  case Nil
  show ?case by simp
next
  case (Cons c cs)
  have "components (snapshots (fold (transferComponent this target) cs (transferComponent this target c h))
          (data (instructions (transferComponent this target c h) this)))
        = components (snapshots (transferComponent this target c h)
          (data (instructions (transferComponent this target c h) this)))"
    by (rule Cons.IH)
  then show ?case by (simp add: transferComponent_source)
qed

lemma transferComponent_target:
  "components (snapshots (transferComponent this target component h) (data (instructions h target)))
   = (components (snapshots h (data (instructions h target))))
       (component := components (snapshots h (data (instructions h this))) component)"
  by (simp add: transferComponent_def setComponent_def getComponent_def)

lemma fold_transferComponent_target:
  "components (snapshots (fold (transferComponent this target) cs h) (data (instructions h target))) k
   = (if k \<in> set cs then components (snapshots h (data (instructions h this))) k
      else components (snapshots h (data (instructions h target))) k)"
proof (induction cs arbitrary: h)
  case Nil
  show ?case by simp
next
  case (Cons c cs)
  let ?h = "transferComponent this target c h"
  have IH: "components (snapshots (fold (transferComponent this target) cs ?h) (data (instructions h target))) k
    = (if k \<in> set cs then components (snapshots ?h (data (instructions h this))) k
      else components (snapshots ?h (data (instructions h target))) k)"
    using Cons.IH [of ?h] by simp
  show ?case
    by (simp add: IH transferComponent_source transferComponent_target)
qed

lemma transferComponent_buffer:
  "changeBuffer (snapshots (transferComponent this target component h) (data (instructions h target)))
   = Set_add Number_toString component (changeBuffer (snapshots h (data (instructions h target))))"
  by (simp add: transferComponent_def setComponent_def)

lemma fold_transferComponent_buffer:
  "set (changeBuffer (snapshots (fold (transferComponent this target) cs h) (data (instructions h target))))
   = set cs \<union> set (changeBuffer (snapshots h (data (instructions h target))))"
proof (induction cs arbitrary: h)
  case Nil
  show ?case by simp
next
  case (Cons c cs)
  let ?h = "transferComponent this target c h"
  have "set (changeBuffer (snapshots (fold (transferComponent this target) cs ?h) (data (instructions h target))))
   = set cs \<union> set (changeBuffer (snapshots ?h (data (instructions h target))))"
    using Cons.IH [of ?h] by simp
  then show ?case by (simp add: transferComponent_buffer)
qed


text \<open>The definitions that evaluating the example states unfolds.\<close>

lemma Number_toString_examples:
  "Number_toString 0 = ''0''" "Number_toString 1 = ''1''" "Number_toString 2 = ''2''"
  by (simp_all add: Number_toString.simps digit_def)

lemmas example_simps = example_heap_def blank_heap_def collision_heap_def shared_heap_def
      addDependency_def Let_def TaskInstruction_new_def OpaqueTask_new_def
      instructionKey_def TaskInstruction_toString_def Number_toString_examples
      Dictionary_getValue_def Dictionary_setValue_def Set_add_def Set_contains_def
      transferOutput_def transferComponent_def setComponent_def getComponent_def ModelData_new_def
      drainChangeBuffer_def

lemma transferOutput_Some:
  "Dictionary_getValue (instructionKey h) (dependencies (instructions h T)) P = Some S \<Longrightarrow>
   transferOutput P T h = Inr (fold (transferComponent P T) S h)"
  by (simp add: transferOutput_def)

text \<open>
  C1, as stated, fails: in the example state instruction 1 depends on instruction 0
  for the components 7 and 8; after \<^verbatim>\<open>transferOutput\<close> returns, the dependency
  mapping of instruction 1 still holds that entry, and instruction 1 is still not
  eligible for execution.
\<close>

theorem transferOutput_keeps_entry_counterexample:
  "\<not> isl (transferOutput 0 1 example_heap) \<and>
   Dictionary_getValue (instructionKey (projr (transferOutput 0 1 example_heap)))
     (dependencies (instructions (projr (transferOutput 0 1 example_heap)) 1)) 0
     = Some [7, 8] \<and>
   \<not> isEligibleForExecution (instructions (projr (transferOutput 0 1 example_heap)) 1)"
  by (simp add: example_simps isEligibleForExecution_def Dictionary_isEmpty_def)

text \<open>
  C1, amended. When the dependency mapping of \<open>T\<close> records the keys \<open>S\<close> for
  \<open>P\<close>, \<^verbatim>\<open>P.transferOutput(T)\<close> returns, the snapshot of \<open>T\<close> then holds for
  every key of \<open>S\<close> the value the snapshot of \<open>P\<close> had for it, and the instruction
  \<open>T\<close> is as it was: its dependency mapping still has the entry \<open>S\<close> for \<open>P\<close>.
\<close>

theorem transferOutput_copies_and_keeps_entry:
  assumes "Dictionary_getValue (instructionKey h) (dependencies (instructions h T)) P = Some S"
  shows "\<exists>h'. transferOutput P T h = Inr h' \<and>
           (\<forall>k\<in>set S. getComponent (snapshots h' (data (instructions h' T))) k
                        = getComponent (snapshots h (data (instructions h P))) k) \<and>
           instructions h' T = instructions h T \<and>
           Dictionary_getValue (instructionKey h') (dependencies (instructions h' T)) P = Some S"
proof -
  let ?h' = "fold (transferComponent P T) S h"
  have "transferOutput P T h = Inr ?h'"
    using assms by (rule transferOutput_Some)
  moreover have "\<forall>k\<in>set S. getComponent (snapshots ?h' (data (instructions ?h' T))) k
                        = getComponent (snapshots h (data (instructions h P))) k"
    by (simp add: getComponent_def fold_transferComponent_target)
  moreover have "instructions ?h' T = instructions h T"
    by simp
  moreover have "instructionKey ?h' = instructionKey h"
    by (simp add: instructionKey_def fun_eq_iff)
  ultimately show ?thesis using assms by simp
qed

text \<open>
  In the example state the snapshot of instruction 1 ends with the values 42 and 43
  of instruction 0 for the components 7 and 8, and its entry for instruction 0 stays.
\<close>

theorem transferOutput_copies_and_keeps_entry_witness:
  "Dictionary_getValue (instructionKey example_heap) (dependencies (instructions example_heap 1)) 0
     = Some [7, 8] \<and>
   getComponent (snapshots example_heap 0) 7 = Some 42 \<and>
   getComponent (snapshots example_heap 0) 8 = Some 43 \<and>
   getComponent (snapshots example_heap 1) 8 = Some 3 \<and>
   getComponent (snapshots (projr (transferOutput 0 1 example_heap)) 1) 7 = Some 42 \<and>
   getComponent (snapshots (projr (transferOutput 0 1 example_heap)) 1) 8 = Some 43 \<and>
   Dictionary_getValue (instructionKey (projr (transferOutput 0 1 example_heap)))
     (dependencies (instructions (projr (transferOutput 0 1 example_heap)) 1)) 0
     = Some [7, 8]"
proof -
  have dep: "Dictionary_getValue (instructionKey example_heap)
               (dependencies (instructions example_heap 1)) 0 = Some [7, 8]"
    by (simp add: example_simps)
  have d: "data (instructions example_heap 0) = 0" "data (instructions example_heap 1) = 1"
    by (simp_all add: example_simps)
  have src: "getComponent (snapshots example_heap 0) 7 = Some 42"
      "getComponent (snapshots example_heap 0) 8 = Some 43"
      "getComponent (snapshots example_heap 1) 8 = Some 3"
    by (simp_all add: example_simps)
  from transferOutput_copies_and_keeps_entry [OF dep]
  obtain h' where h': "transferOutput 0 1 example_heap = Inr h'"
    and copy: "\<forall>k\<in>set [7, 8]. getComponent (snapshots h' (data (instructions h' 1))) k
                        = getComponent (snapshots example_heap (data (instructions example_heap 0))) k"
    and same: "instructions h' 1 = instructions example_heap 1"
    and entry: "Dictionary_getValue (instructionKey h') (dependencies (instructions h' 1)) 0
                  = Some [7, 8]"
    by blast
  have "data (instructions h' 1) = 1"
    using same d by simp
  with copy d src
  have "getComponent (snapshots h' 1) 7 = Some 42" "getComponent (snapshots h' 1) 8 = Some 43"
    by simp_all
  with h' dep src entry show ?thesis by simp
qed

text \<open>
  C10, as stated, fails: in the state where instruction 1 was constructed on the
  snapshot object of instruction 0 and depends on it for component 7,
  \<^verbatim>\<open>transferOutput\<close> returns and the snapshot of the producer, instruction 0, is
  not as before: its change buffer was empty and now holds 7.
\<close>

theorem transferOutput_shared_snapshot_counterexample:
  "Dictionary_getValue (instructionKey shared_heap) (dependencies (instructions shared_heap 1)) 0
     = Some [7] \<and>
   \<not> isl (transferOutput 0 1 shared_heap) \<and>
   changeBuffer (snapshots shared_heap (data (instructions shared_heap 0))) = [] \<and>
   changeBuffer (snapshots (projr (transferOutput 0 1 shared_heap))
     (data (instructions shared_heap 0))) = [7]"
  by (simp add: example_simps)

text \<open>
  C10, amended. When the dependency mapping of \<open>T\<close> records the keys \<open>S\<close> for \<open>P\<close>,
  \<^verbatim>\<open>P.transferOutput(T)\<close> changes no instruction (so the task, the dependency
  mapping and the inverted-dependency set of \<open>P\<close> are as before) and no snapshot
  object but the one of \<open>T\<close>; in that one, every key outside \<open>S\<close> keeps its value
  and its membership in the change buffer, and the change buffer gains the keys of
  \<open>S\<close>. The component values of the snapshot of \<open>P\<close> are unchanged, and the whole
  snapshot object of \<open>P\<close> is unchanged when it is not the object \<open>T\<close> uses.
\<close>

theorem transferOutput_frame:
  assumes "Dictionary_getValue (instructionKey h) (dependencies (instructions h T)) P = Some S"
    and "transferOutput P T h = Inr h'"
  shows "instructions h' = instructions h \<and>
         (\<forall>d. d \<noteq> data (instructions h T) \<longrightarrow> snapshots h' d = snapshots h d) \<and>
         (\<forall>k. k \<notin> set S \<longrightarrow>
            getComponent (snapshots h' (data (instructions h T))) k
              = getComponent (snapshots h (data (instructions h T))) k \<and>
            (k \<in> set (changeBuffer (snapshots h' (data (instructions h T))))
              \<longleftrightarrow> k \<in> set (changeBuffer (snapshots h (data (instructions h T)))))) \<and>
         set (changeBuffer (snapshots h' (data (instructions h T))))
           = set S \<union> set (changeBuffer (snapshots h (data (instructions h T)))) \<and>
         instructions h' P = instructions h P \<and>
         components (snapshots h' (data (instructions h P)))
           = components (snapshots h (data (instructions h P))) \<and>
         (data (instructions h P) \<noteq> data (instructions h T) \<longrightarrow>
            snapshots h' (data (instructions h P)) = snapshots h (data (instructions h P)))"
proof -
  have h': "h' = fold (transferComponent P T) S h"
    using assms by (simp add: transferOutput_Some)
  have "instructions h' = instructions h"
    by (simp add: h')
  moreover have "\<forall>d. d \<noteq> data (instructions h T) \<longrightarrow> snapshots h' d = snapshots h d"
    by (simp add: h' fold_transferComponent_other)
  moreover have "\<forall>k. k \<notin> set S \<longrightarrow>
            getComponent (snapshots h' (data (instructions h T))) k
              = getComponent (snapshots h (data (instructions h T))) k \<and>
            (k \<in> set (changeBuffer (snapshots h' (data (instructions h T))))
              \<longleftrightarrow> k \<in> set (changeBuffer (snapshots h (data (instructions h T)))))"
    by (simp add: h' getComponent_def fold_transferComponent_target fold_transferComponent_buffer)
  moreover have "set (changeBuffer (snapshots h' (data (instructions h T))))
           = set S \<union> set (changeBuffer (snapshots h (data (instructions h T))))"
    by (simp add: h' fold_transferComponent_buffer)
  moreover have "components (snapshots h' (data (instructions h P)))
           = components (snapshots h (data (instructions h P)))"
    by (simp add: h' fold_transferComponent_source)
  ultimately show ?thesis by simp
qed

text \<open>
  In the example state instruction 0 and its snapshot are untouched, and component 9,
  which is not among the recorded keys, keeps its value in the snapshot of
  instruction 1.
\<close>

theorem transferOutput_frame_witness:
  "Dictionary_getValue (instructionKey example_heap) (dependencies (instructions example_heap 1)) 0
     = Some [7, 8] \<and>
   \<not> isl (transferOutput 0 1 example_heap) \<and>
   instructions (projr (transferOutput 0 1 example_heap)) 0 = instructions example_heap 0 \<and>
   snapshots (projr (transferOutput 0 1 example_heap)) 0 = snapshots example_heap 0 \<and>
   getComponent (snapshots example_heap 1) 9 = Some 5 \<and>
   getComponent (snapshots (projr (transferOutput 0 1 example_heap)) 1) 9 = Some 5"
proof -
  define h' where "h' = projr (transferOutput 0 1 example_heap)"
  have dep: "Dictionary_getValue (instructionKey example_heap)
               (dependencies (instructions example_heap 1)) 0 = Some [7, 8]"
    by (simp add: example_simps)
  then have ret: "transferOutput 0 1 example_heap = Inr h'"
    by (simp add: transferOutput_Some h'_def)
  have d: "data (instructions example_heap 0) = 0" "data (instructions example_heap 1) = 1"
    by (simp_all add: example_simps)
  have nine: "getComponent (snapshots example_heap 1) 9 = Some 5"
    by (simp add: example_simps)
  note frame = transferOutput_frame [OF dep ret, unfolded d]
  from frame have "instructions h' 0 = instructions example_heap 0"
    by blast
  moreover from frame have "snapshots h' 0 = snapshots example_heap 0"
    by simp
  moreover from frame have "getComponent (snapshots h' 1) 9 = getComponent (snapshots example_heap 1) 9"
    by simp
  ultimately show ?thesis
    using dep ret nine by (simp add: h'_def [symmetric])
qed

section \<open>Adding a dependency\<close>

text \<open>
  What \<^verbatim>\<open>addDependency\<close> leaves at each address: the entry goes into the
  dependency mapping of \<^verbatim>\<open>this\<close>, and \<^verbatim>\<open>this\<close> into the inverted
  dependencies of the producer, also when the two are the same object.
\<close>

lemma addDependency_instructions:
  "instructions (addDependency I P k h) j =
     (let S = (case Dictionary_getValue (instructionKey h) (dependencies (instructions h I)) P of
                 None \<Rightarrow> [] | Some s \<Rightarrow> s);
          withEntry = (instructions h I)
            \<lparr>dependencies := Dictionary_setValue (instructionKey h) P
                (Set_add Number_toString k S) (dependencies (instructions h I))\<rparr>
      in if j = P then
           (if P = I then withEntry else instructions h P)
             \<lparr>invertedDependencies :=
                Set_add (instructionKey h) I (invertedDependencies (instructions h P))\<rparr>
         else if j = I then withEntry
         else instructions h j)"
  by (simp add: addDependency_def Let_def)

lemma addDependency_dependencies:
  "dependencies (instructions (addDependency I P k h) j) =
     (if j = I then
        Dictionary_setValue (instructionKey h) P
          (Set_add Number_toString k
             (case Dictionary_getValue (instructionKey h) (dependencies (instructions h I)) P of
                None \<Rightarrow> [] | Some s \<Rightarrow> s))
          (dependencies (instructions h I))
      else dependencies (instructions h j))"
  by (simp add: addDependency_instructions Let_def)

lemma addDependency_invertedDependencies:
  "invertedDependencies (instructions (addDependency I P k h) j) =
     (if j = P then Set_add (instructionKey h) I (invertedDependencies (instructions h P))
      else invertedDependencies (instructions h j))"
  by (simp add: addDependency_instructions Let_def)

lemma addDependency_task [simp]:
  "task (instructions (addDependency I P k h) j) = task (instructions h j)"
  by (simp add: addDependency_instructions Let_def)

lemma addDependency_instructionKey [simp]:
  "instructionKey (addDependency I P k h) = instructionKey h"
  by (simp add: instructionKey_def TaskInstruction_toString_def fun_eq_iff)

lemma addDependency_snapshots [simp]:
  "snapshots (addDependency I P k h) = snapshots h"
  by (simp add: addDependency_def Let_def)

lemma map_of_Dictionary_setValue:
  "map_of (Dictionary_setValue toStr k v d) = (map_of d)(toStr k \<mapsto> (k, v))"
  by (simp add: Dictionary_setValue_def update_conv')

lemma Dictionary_getValue_setValue:
  "Dictionary_getValue toStr (Dictionary_setValue toStr k v d) q =
     (if toStr q = toStr k then Some v else Dictionary_getValue toStr d q)"
  by (simp add: Dictionary_getValue_def map_of_Dictionary_setValue)

lemma Dictionary_setValue_distinct:
  "distinct (map fst d) \<Longrightarrow> distinct (map fst (Dictionary_setValue toStr k v d))"
  by (simp add: Dictionary_setValue_def distinct_update)

lemma Dictionary_setValue_nonempty: "Dictionary_setValue toStr k v d \<noteq> []"
  unfolding Dictionary_setValue_def by (cases d) auto

lemma Dictionary_getValue_None:
  "Dictionary_getValue toStr d k = None \<longleftrightarrow> toStr k \<notin> fst ` set d"
  by (simp add: Dictionary_getValue_def map_of_eq_None_iff)

lemma isl_transferOutput:
  "isl (transferOutput P T h) \<longleftrightarrow>
     Dictionary_getValue (instructionKey h) (dependencies (instructions h T)) P = None"
  by (simp add: transferOutput_def split: option.split)

text \<open>
  C4, as stated, fails: the tasks of the instructions 0 and 2 have the same index.
  Instruction 1 had no dependency and then declared one on instruction 0 only, which
  is the producer of the one entry of its dependency mapping; yet
  \<^verbatim>\<open>transferOutput\<close> from instruction 2 to instruction 1 returns without an
  error.
\<close>

theorem transferOutput_same_index_counterexample:
  "dependencies (instructions collision_heap 1) = [] \<and>
   map (\<lambda>entry. fst (snd entry))
     (dependencies (instructions (addDependency 1 0 7 collision_heap) 1)) = [0] \<and>
   \<not> isl (transferOutput 2 1 (addDependency 1 0 7 collision_heap))"
  by (simp add: example_simps)

text \<open>
  C4, amended. \<^verbatim>\<open>P.transferOutput(T)\<close> raises the error "Cannot transfer
  components to independent instruction." exactly when the dependency mapping of
  \<open>T\<close> has no entry under the key of \<open>P\<close>, the string made of \<^verbatim>\<open>Instruction\<close>
  and the index of the task of \<open>P\<close>, and returns exactly when it has one. So once
  \<open>T\<close> has declared a dependency on \<open>P\<close>, the call does not raise for \<open>P\<close> nor for
  any instruction with the key of \<open>P\<close>; and for an instruction with another key,
  that declaration does not change whether the call raises.
\<close>

theorem transferOutput_raises_iff_no_entry_for_key:
  "(Dictionary_getValue (instructionKey h) (dependencies (instructions h T)) P = None \<longleftrightarrow>
      transferOutput P T h = Inl (Error ''Cannot transfer components to independent instruction.'')) \<and>
   (Dictionary_getValue (instructionKey h) (dependencies (instructions h T)) P \<noteq> None \<longleftrightarrow>
      (\<exists>h'. transferOutput P T h = Inr h')) \<and>
   (Dictionary_getValue (instructionKey h) (dependencies (instructions h T)) P = None \<longleftrightarrow>
      instructionKey h P \<notin> fst ` set (dependencies (instructions h T))) \<and>
   (instructionKey h Q = instructionKey h P \<longrightarrow>
      \<not> isl (transferOutput Q T (addDependency T P k h))) \<and>
   (instructionKey h Q \<noteq> instructionKey h P \<longrightarrow>
      (isl (transferOutput Q T (addDependency T P k h)) \<longleftrightarrow> isl (transferOutput Q T h)))"
proof -
  have "Dictionary_getValue (instructionKey h) (dependencies (instructions h T)) P = None \<longleftrightarrow>
      transferOutput P T h = Inl (Error ''Cannot transfer components to independent instruction.'')"
    by (simp add: transferOutput_def split: option.split)
  moreover have "Dictionary_getValue (instructionKey h) (dependencies (instructions h T)) P \<noteq> None \<longleftrightarrow>
      (\<exists>h'. transferOutput P T h = Inr h')"
    by (simp add: transferOutput_def split: option.split)
  moreover have "Dictionary_getValue (instructionKey h) (dependencies (instructions h T)) P = None \<longleftrightarrow>
      instructionKey h P \<notin> fst ` set (dependencies (instructions h T))"
    by (rule Dictionary_getValue_None)
  moreover have "instructionKey h Q = instructionKey h P \<longrightarrow>
      \<not> isl (transferOutput Q T (addDependency T P k h))"
    by (simp add: isl_transferOutput addDependency_dependencies Dictionary_getValue_setValue)
  moreover have "instructionKey h Q \<noteq> instructionKey h P \<longrightarrow>
      (isl (transferOutput Q T (addDependency T P k h)) \<longleftrightarrow> isl (transferOutput Q T h))"
    by (simp add: isl_transferOutput addDependency_dependencies Dictionary_getValue_setValue)
  ultimately show ?thesis by blast
qed

text \<open>
  In the blank store, where the tasks have different indices: once instruction 1
  depends on instruction 0, a transfer to it from instruction 0 returns and one from
  instruction 2 raises.
\<close>

theorem transferOutput_raises_iff_no_entry_for_key_witness:
  "instructionKey blank_heap 0 = instructionKey blank_heap 0 \<and>
   instructionKey blank_heap 2 \<noteq> instructionKey blank_heap 0 \<and>
   isl (transferOutput 2 1 blank_heap) \<and>
   \<not> isl (transferOutput 0 1 (addDependency 1 0 7 blank_heap)) \<and>
   isl (transferOutput 2 1 (addDependency 1 0 7 blank_heap))"
proof -
  have keys: "instructionKey blank_heap 2 \<noteq> instructionKey blank_heap 0"
    by (simp add: example_simps)
  have before: "isl (transferOutput 2 1 blank_heap)"
    by (simp add: example_simps)
  from transferOutput_raises_iff_no_entry_for_key [of blank_heap 1 0 0 7]
  have "\<not> isl (transferOutput 0 1 (addDependency 1 0 7 blank_heap))"
    by blast
  moreover from transferOutput_raises_iff_no_entry_for_key [of blank_heap 1 0 2 7] keys before
  have "isl (transferOutput 2 1 (addDependency 1 0 7 blank_heap))"
    by blast
  ultimately show ?thesis using keys before by simp
qed




text \<open>
  C9. A freshly constructed instruction has an empty dependency mapping and an empty
  inverted-dependency set, and is eligible for execution; once a dependency is added
  to it, it is not.
\<close>

theorem TaskInstruction_new_eligible:
  "dependencies (TaskInstruction_new t d) = [] \<and>
   invertedDependencies (TaskInstruction_new t d) = [] \<and>
   isEligibleForExecution (TaskInstruction_new t d) \<and>
   (instructions h i = TaskInstruction_new t d \<longrightarrow>
      \<not> isEligibleForExecution (instructions (addDependency i p k h) i))"
  by (simp add: TaskInstruction_new_def isEligibleForExecution_def Dictionary_isEmpty_iff
      addDependency_dependencies Dictionary_setValue_nonempty)

text \<open>
  Instruction 1 of the blank store is fresh and eligible; it is not once it depends
  on instruction 0.
\<close>

theorem TaskInstruction_new_eligible_witness:
  "instructions blank_heap 1 = TaskInstruction_new ((OpaqueTask_new () None)\<lparr>index := Some 1\<rparr>) 1 \<and>
   isEligibleForExecution (instructions blank_heap 1) \<and>
   \<not> isEligibleForExecution (instructions (addDependency 1 0 7 blank_heap) 1)"
proof -
  have fresh: "instructions blank_heap 1
                 = TaskInstruction_new ((OpaqueTask_new () None)\<lparr>index := Some 1\<rparr>) 1"
    by (simp add: blank_heap_def)
  from TaskInstruction_new_eligible
    [of "(OpaqueTask_new () None)\<lparr>index := Some 1\<rparr>" 1 blank_heap 1 0 7] fresh
  show ?thesis by simp
qed

section \<open>Creating a task\<close>

lemma set_fold_Set_add: "set (fold (Set_add Number_toString) xs s) = set xs \<union> set s"
  by (induction xs arbitrary: s) auto

text \<open>
  C8. \<^verbatim>\<open>Model.createTask\<close> leaves the program state as it was, whatever it is; in
  particular the processor (its pools and its data store), the observer list and the
  record of the calls made on the processor are those of before, so nothing was
  scheduled. The task it returns holds the effect and a metadata object with the given
  read set, write set and priority, so that its priority can be read.
\<close>

theorem createTask_leaves_state:
  "snd (createTask e r w p s) = s \<and>
   tasks (snd (createTask e r w p this)) = tasks this \<and>
   observers (snd (createTask e r w p this)) = observers this \<and>
   calls (snd (createTask e r w p this)) = calls this \<and>
   execute (fst (createTask e r w p s)) = e \<and>
   map_option (\<lambda>m. (set (readSet m), set (writeSet m), priority m))
     (metadata (fst (createTask e r w p s))) = Some (set r, set w, p) \<and>
   getPriority (TaskInstruction_new (fst (createTask e r w p s)) d) = Inr p"
  by (simp add: createTask_def OpaqueTask_new_def ModelTaskMetadata_new_def getPriority_def
      TaskInstruction_new_def set_fold_Set_add)

section \<open>The tasks of the persistence layer\<close>

text \<open>
  C2 fails on the code: the constructors of \<^verbatim>\<open>LoadTask\<close> and \<^verbatim>\<open>SaveTask\<close>
  pass \<^verbatim>\<open>null\<close> as the metadata, for every module, so neither task has a read set
  or a write set, and reading the priority of an instruction that holds one raises a
  \<^verbatim>\<open>TypeError\<close>.
\<close>

theorem persistence_tasks_have_no_metadata:
  "metadata (LoadTask newComponent setPart result module) = None \<and>
   metadata (SaveTask getPart module) = None \<and>
   getPriority (TaskInstruction_new (LoadTask newComponent setPart result module) d) = Inl TypeError \<and>
   getPriority (TaskInstruction_new (SaveTask getPart module) d) = Inl TypeError"
  by (simp add: LoadTask_def SaveTask_def ProcessorTask_new_def getPriority_def TaskInstruction_new_def)

section \<open>Notifying the observers\<close>

text \<open>
  An observer and the processor's \<^verbatim>\<open>schedule\<close> are taken to return: the
  specification has observers pure and gives \<^verbatim>\<open>schedule\<close> no error.
\<close>

lemma fold_scheduleTask:
  "fold (scheduleTask schedule) ts this =
     this\<lparr>tasks := fold schedule ts (tasks this),
          calls := calls this @ map Schedule_call ts\<rparr>"
  by (induction ts arbitrary: this) (simp_all add: scheduleTask_def)

lemma notifyObserver_eq:
  "notifyObserver schedule C element this =
     this\<lparr>tasks := fold schedule (snd element C) (tasks this),
          calls := calls this @ Observer_call (fst element) C # map Schedule_call (snd element C)\<rparr>"
  by (simp add: notifyObserver_def fold_scheduleTask)

lemma fold_notifyObserver:
  "fold (notifyObserver schedule C) es this =
     this\<lparr>tasks := fold schedule (concat (map (\<lambda>element. snd element C) es)) (tasks this),
          calls := calls this @
            concat (map (\<lambda>element. Observer_call (fst element) C # map Schedule_call (snd element C)) es)\<rparr>"
  by (induction es arbitrary: this) (simp_all add: notifyObserver_eq)

lemma fold_registerObserver:
  "observers (fold registerObserver os this) = observers this @ os"
  by (induction os arbitrary: this) (simp_all add: registerObserver_def)

lemma map_snd_enumerate': "map (\<lambda>element. snd element C) (enumerate n os) = map (\<lambda>element. element C) os"
  by (induction os arbitrary: n) simp_all

text \<open>
  C3. With the change set \<open>C\<close>, \<^verbatim>\<open>notifyObservers\<close> makes these calls, in this
  order: for each position \<open>i\<close> of the observer list, from the first, one call of
  observer \<open>i\<close> with \<open>C\<close>, then one call of \<^verbatim>\<open>schedule\<close> for each task that
  observer returned, in the order returned, and only then the call of the next
  observer. The processor ends as after scheduling all those tasks in that order. The
  observer list is the list of the observers registered since construction, in
  registration order, and the completion hook calls \<^verbatim>\<open>notifyObservers\<close> with the
  change buffer it drained from the data store.
\<close>

theorem notifyObservers_in_registration_order:
  "calls (notifyObservers schedule C this) =
     calls this @
       concat (map (\<lambda>i. Observer_call i C # map Schedule_call ((observers this ! i) C))
                 [0 ..< length (observers this)]) \<and>
   tasks (notifyObservers schedule C this) =
     fold schedule (concat (map (\<lambda>element. element C) (observers this))) (tasks this) \<and>
   observers (notifyObservers schedule C this) = observers this \<and>
   observers (fold registerObserver os (Model_new newProcessor d)) = os \<and>
   taskCompleted schedule this =
     notifyObservers schedule (changeBuffer (processorData (tasks this)))
       (this\<lparr>tasks := (tasks this)
          \<lparr>processorData := (processorData (tasks this))\<lparr>changeBuffer := []\<rparr>\<rparr>\<rparr>)"
proof -
  have "map (\<lambda>element. Observer_call (fst element) C # map Schedule_call (snd element C))
          (enumerate 0 (observers this))
        = map (\<lambda>i. Observer_call i C # map Schedule_call ((observers this ! i) C))
            [0 ..< length (observers this)]"
    by (rule nth_equalityI) (simp_all add: nth_enumerate_eq)
  then have "calls (notifyObservers schedule C this) =
     calls this @
       concat (map (\<lambda>i. Observer_call i C # map Schedule_call ((observers this ! i) C))
                 [0 ..< length (observers this)])"
    by (simp add: notifyObservers_def fold_notifyObserver)
  moreover have "tasks (notifyObservers schedule C this) =
     fold schedule (concat (map (\<lambda>element. element C) (observers this))) (tasks this)"
    by (simp add: notifyObservers_def fold_notifyObserver map_snd_enumerate')
  moreover have "observers (notifyObservers schedule C this) = observers this"
    by (simp add: notifyObservers_def fold_notifyObserver)
  moreover have "observers (fold registerObserver os (Model_new newProcessor d)) = os"
    by (simp add: fold_registerObserver Model_new_def)
  moreover have "taskCompleted schedule this =
     notifyObservers schedule (changeBuffer (processorData (tasks this)))
       (this\<lparr>tasks := (tasks this)
          \<lparr>processorData := (processorData (tasks this))\<lparr>changeBuffer := []\<rparr>\<rparr>\<rparr>)"
    by (simp add: taskCompleted_def drainChangeBuffer_def)
  ultimately show ?thesis by simp
qed

section \<open>Scheduling keeps the dependency graph acyclic\<close>

lemma set_dependencyEdges:
  "set (dependencyEdges this) =
     {(i, p). i < instructionCount this \<and>
              p \<in> (\<lambda>entry. fst (snd entry)) ` set (dependencies (instructions (memory this) i))}"
  by (auto simp: dependencyEdges_def)

lemma fold_addReadDependency_task [simp]:
  "task (instructions (fold (addReadDependency writers i) ks h) j) = task (instructions h j)"
  by (induction ks arbitrary: h) (simp_all add: addReadDependency_def split: option.split)

lemma fold_addReadDependency_other:
  "j \<noteq> i \<Longrightarrow>
   dependencies (instructions (fold (addReadDependency writers i) ks h) j)
     = dependencies (instructions h j)"
  by (induction ks arbitrary: h)
     (simp_all add: addReadDependency_def addDependency_dependencies split: option.split)

lemma Dictionary_setValue_entries:
  "set (Dictionary_setValue toStr k v d) \<subseteq> insert (toStr k, k, v) (set d)"
  unfolding Dictionary_setValue_def by (induction d) auto

lemma Dictionary_getValue_entry:
  "Dictionary_getValue toStr d k = Some v \<Longrightarrow> v \<in> (\<lambda>entry. snd (snd entry)) ` set d"
proof -
  assume "Dictionary_getValue toStr d k = Some v"
  then obtain k' where "map_of d (toStr k) = Some (k', v)"
    by (auto simp: Dictionary_getValue_def)
  then have "(toStr k, k', v) \<in> set d"
    by (rule map_of_SomeD)
  then show ?thesis by force
qed

lemma fold_addReadDependency_producers:
  "(\<lambda>entry. fst (snd entry)) ` set (dependencies (instructions (fold (addReadDependency writers i) ks h) i))
     \<subseteq> (\<lambda>entry. fst (snd entry)) ` set (dependencies (instructions h i))
         \<union> (\<lambda>entry. snd (snd entry)) ` set writers"
proof (induction ks arbitrary: h)
  case Nil
  show ?case by simp
next
  case (Cons key ks)
  show ?case
  proof (cases "Dictionary_getValue Number_toString writers key")
    case None
    then show ?thesis using Cons.IH [of h] by (simp add: addReadDependency_def)
  next
    case (Some producer)
    let ?h = "addDependency i producer key h"
    from Some have writer: "producer \<in> (\<lambda>entry. snd (snd entry)) ` set writers"
      by (rule Dictionary_getValue_entry)
    have added: "(\<lambda>entry. fst (snd entry)) ` set (dependencies (instructions ?h i))
        \<subseteq> insert producer ((\<lambda>entry. fst (snd entry)) ` set (dependencies (instructions h i)))"
      using Dictionary_setValue_entries
        [of "instructionKey h" producer _ "dependencies (instructions h i)"]
      by (fastforce simp: addDependency_dependencies)
    have step: "fold (addReadDependency writers i) (key # ks) h
                  = fold (addReadDependency writers i) ks ?h"
      using Some by (simp add: addReadDependency_def)
    from Cons.IH [of ?h] added writer show ?thesis
      unfolding step by blast
  qed
qed

lemma fold_setValue_values:
  "(\<lambda>entry. snd (snd entry)) `
      set (fold (\<lambda>key. Dictionary_setValue Number_toString key i) ws writers)
     \<subseteq> insert i ((\<lambda>entry. snd (snd entry)) ` set writers)"
proof (induction ws arbitrary: writers)
  case Nil
  show ?case by auto
next
  case (Cons key ws)
  have "(\<lambda>entry. snd (snd entry)) ` set (Dictionary_setValue Number_toString key i writers)
          \<subseteq> insert i ((\<lambda>entry. snd (snd entry)) ` set writers)"
    using Dictionary_setValue_entries [of Number_toString key i writers] by force
  with Cons.IH [of "Dictionary_setValue Number_toString key i writers"] show ?case
    by auto
qed

lemma schedule_Inr:
  assumes "OutOfOrderProcessor_schedule newTask this = Inr this'"
  obtains m where "metadata newTask = Some m"
    and "instructionCount this' = Suc (instructionCount this)"
    and "memory this' =
           fold (addReadDependency (lastWriter this) (instructionCount this)) (readSet m)
             ((memory this)
                \<lparr>snapshots := (snapshots (memory this))(instructionCount this := processorData this),
                 instructions := (instructions (memory this))
                   (instructionCount this := TaskInstruction_new newTask (instructionCount this))\<rparr>)"
    and "lastWriter this' =
           fold (\<lambda>key. Dictionary_setValue Number_toString key (instructionCount this))
             (writeSet m) (lastWriter this)"
  using assms
  by (auto simp: OutOfOrderProcessor_schedule_def Let_def split: option.splits)

lemma schedule_total:
  "metadata newTask \<noteq> None \<Longrightarrow> \<exists>this'. OutOfOrderProcessor_schedule newTask this = Inr this'"
  by (auto simp: OutOfOrderProcessor_schedule_def Let_def split: option.splits)

lemma backwardOnly_iff:
  "backwardOnly this \<longleftrightarrow>
     (\<forall>p \<in> (\<lambda>entry. snd (snd entry)) ` set (lastWriter this). p < instructionCount this) \<and>
     (\<forall>i < instructionCount this.
        \<forall>p \<in> (\<lambda>entry. fst (snd entry)) ` set (dependencies (instructions (memory this) i)).
           p < i)"
  by (auto simp: backwardOnly_def list_all_iff set_dependencyEdges)

text \<open>
  One schedule operation keeps the property: the new instruction takes the next
  address, its dependencies are last writers, which were created before it, and no
  other dependency mapping changes.
\<close>

lemma schedule_step:
  assumes inv: "backwardOnly this"
    and step: "OutOfOrderProcessor_schedule newTask this = Inr this'"
  shows "backwardOnly this'"
    and "instructionCount this' = Suc (instructionCount this)"
    and "task (instructions (memory this') (instructionCount this)) = newTask"
    and "\<forall>j. j \<noteq> instructionCount this \<longrightarrow>
           task (instructions (memory this') j) = task (instructions (memory this) j)"
proof -
  let ?i = "instructionCount this"
  let ?h0 = "(memory this)
                \<lparr>snapshots := (snapshots (memory this))(?i := processorData this),
                 instructions := (instructions (memory this))
                   (?i := TaskInstruction_new newTask ?i)\<rparr>"
  from step obtain m where m: "metadata newTask = Some m"
    and count: "instructionCount this' = Suc ?i"
    and mem: "memory this' = fold (addReadDependency (lastWriter this) ?i) (readSet m) ?h0"
    and writers: "lastWriter this' =
           fold (\<lambda>key. Dictionary_setValue Number_toString key ?i) (writeSet m) (lastWriter this)"
    by (rule schedule_Inr)
  from inv have old_writers: "\<forall>p \<in> (\<lambda>entry. snd (snd entry)) ` set (lastWriter this). p < ?i"
    and old_edges: "\<forall>i < ?i. \<forall>p \<in> (\<lambda>entry. fst (snd entry)) ` set (dependencies (instructions (memory this) i)). p < i"
    by (simp_all add: backwardOnly_iff)
  show "instructionCount this' = Suc ?i" by (rule count)
  show "task (instructions (memory this') ?i) = newTask"
    by (simp add: mem TaskInstruction_new_def)
  show "\<forall>j. j \<noteq> ?i \<longrightarrow> task (instructions (memory this') j) = task (instructions (memory this) j)"
    by (simp add: mem)
  have new_writers: "\<forall>p \<in> (\<lambda>entry. snd (snd entry)) ` set (lastWriter this'). p < Suc ?i"
  proof
    fix p assume "p \<in> (\<lambda>entry. snd (snd entry)) ` set (lastWriter this')"
    then have "p \<in> insert ?i ((\<lambda>entry. snd (snd entry)) ` set (lastWriter this))"
      using fold_setValue_values [of ?i "writeSet m" "lastWriter this"] by (auto simp: writers)
    with old_writers show "p < Suc ?i" by (auto simp: less_Suc_eq)
  qed
  have new_edges: "\<forall>i < Suc ?i. \<forall>p \<in> (\<lambda>entry. fst (snd entry)) ` set (dependencies (instructions (memory this') i)). p < i"
  proof (intro allI impI ballI)
    fix i p
    assume i: "i < Suc ?i" and p: "p \<in> (\<lambda>entry. fst (snd entry)) ` set (dependencies (instructions (memory this') i))"
    show "p < i"
    proof (cases "i = ?i")
      case True
      have "(\<lambda>entry. fst (snd entry)) ` set (dependencies (instructions (memory this') ?i))
              \<subseteq> (\<lambda>entry. fst (snd entry)) ` set (dependencies (instructions ?h0 ?i)) \<union> (\<lambda>entry. snd (snd entry)) ` set (lastWriter this)"
        unfolding mem by (rule fold_addReadDependency_producers)
      moreover have "dependencies (instructions ?h0 ?i) = []"
        by (simp add: TaskInstruction_new_def)
      ultimately have "p \<in> (\<lambda>entry. snd (snd entry)) ` set (lastWriter this)"
        using p True by auto
      with old_writers True show ?thesis by blast
    next
      case False
      then have "dependencies (instructions (memory this') i) = dependencies (instructions ?h0 i)"
        unfolding mem by (rule fold_addReadDependency_other)
      also have "\<dots> = dependencies (instructions (memory this) i)"
        using False by simp
      finally have "p \<in> (\<lambda>entry. fst (snd entry)) ` set (dependencies (instructions (memory this) i))"
        using p by simp
      moreover from i False have "i < ?i" by simp
      ultimately show ?thesis using old_edges by blast
    qed
  qed
  from new_writers new_edges show "backwardOnly this'"
    by (simp add: backwardOnly_iff count)
qed

lemma scheduleAll_steps:
  "backwardOnly this \<Longrightarrow> scheduleAll ts this = Inr this' \<Longrightarrow>
   backwardOnly this' \<and>
   instructionCount this' = instructionCount this + length ts \<and>
   (\<forall>k < length ts. task (instructions (memory this') (instructionCount this + k)) = ts ! k) \<and>
   (\<forall>j < instructionCount this. task (instructions (memory this') j) = task (instructions (memory this) j))"
proof (induction ts arbitrary: this)
  case Nil
  then show ?case by simp
next
  case (Cons t ts)
  from Cons.prems(2) obtain mid where first: "OutOfOrderProcessor_schedule t this = Inr mid"
    and rest: "scheduleAll ts mid = Inr this'"
    by (auto split: sum.splits)
  note s = schedule_step [OF Cons.prems(1) first]
  note IH = Cons.IH [OF s(1) rest]
  have count: "instructionCount this' = instructionCount this + length (t # ts)"
    using IH s(2) by simp
  have old: "\<forall>j < instructionCount this. task (instructions (memory this') j) = task (instructions (memory this) j)"
    using IH s(2) s(4) by simp
  have here: "task (instructions (memory this') (instructionCount this)) = t"
    using IH s(2) s(3) by simp
  have new: "\<forall>k < length (t # ts). task (instructions (memory this') (instructionCount this + k)) = (t # ts) ! k"
  proof (intro allI impI)
    fix k assume k: "k < length (t # ts)"
    show "task (instructions (memory this') (instructionCount this + k)) = (t # ts) ! k"
    proof (cases k)
      case 0
      then show ?thesis using here by simp
    next
      case (Suc k')
      with k have "k' < length ts" by simp
      with IH have "task (instructions (memory this') (instructionCount mid + k')) = ts ! k'"
        by blast
      then show ?thesis using Suc s(2) by simp
    qed
  qed
  from IH count old new show ?case by blast
qed

lemma scheduleAll_total:
  "\<forall>t \<in> set ts. metadata t \<noteq> None \<Longrightarrow> \<exists>this'. scheduleAll ts this = Inr this'"
proof (induction ts arbitrary: this)
  case Nil
  show ?case by simp
next
  case (Cons t ts)
  then obtain mid where "OutOfOrderProcessor_schedule t this = Inr mid"
    using schedule_total [of t this] by auto
  with Cons show ?case by simp
qed

lemma backward_acyclic:
  assumes "\<forall>edge \<in> r. snd edge < fst edge"
  shows "acyclic (r :: (nat \<times> nat) set)"
proof -
  have "r \<subseteq> (less_than)\<inverse>"
    using assms by auto
  moreover have "acyclic ((less_than)\<inverse>)"
    using wf_less_than by (simp add: wf_acyclic)
  ultimately show ?thesis by (rule acyclic_subset [rotated])
qed

text \<open>
  C7. After any sequence of schedule operations on a new out-of-order processor, the
  dependency graph over its instructions is acyclic: the instruction at address
  \<open>k\<close> is the one created for the \<open>k\<close>-th task scheduled, and every dependency
  edge goes from an instruction to one scheduled earlier. A sequence of tasks that
  all have metadata is scheduled without error.
\<close>

theorem schedule_sequence_acyclic:
  "(scheduleAll ts (OutOfOrderProcessor_new mem d) = Inr this \<longrightarrow>
      acyclic (set (dependencyEdges this)) \<and>
      (\<forall>edge \<in> set (dependencyEdges this). snd edge < fst edge) \<and>
      instructionCount this = length ts \<and>
      (\<forall>k < length ts. task (instructions (memory this) k) = ts ! k)) \<and>
   ((\<forall>t \<in> set ts. metadata t \<noteq> None) \<longrightarrow>
      (\<exists>this'. scheduleAll ts (OutOfOrderProcessor_new mem d) = Inr this'))"
proof (intro conjI impI)
  assume run: "scheduleAll ts (OutOfOrderProcessor_new mem d) = Inr this"
  have start: "backwardOnly (OutOfOrderProcessor_new mem d)"
    by (simp add: backwardOnly_def OutOfOrderProcessor_new_def dependencyEdges_def)
  have zero: "instructionCount (OutOfOrderProcessor_new mem d) = 0"
    by (simp add: OutOfOrderProcessor_new_def)
  note run_facts = scheduleAll_steps [OF start run, unfolded zero]
  from run_facts have "backwardOnly this" by blast
  then show backward: "\<forall>edge \<in> set (dependencyEdges this). snd edge < fst edge"
    by (simp add: backwardOnly_def list_all_iff)
  then show "acyclic (set (dependencyEdges this))"
    by (rule backward_acyclic)
  from run_facts show "instructionCount this = length ts" by simp
  from run_facts show "\<forall>k < length ts. task (instructions (memory this) k) = ts ! k" by simp
next
  assume "\<forall>t \<in> set ts. metadata t \<noteq> None"
  then show "\<exists>this'. scheduleAll ts (OutOfOrderProcessor_new mem d) = Inr this'"
    by (rule scheduleAll_total)
qed


text \<open>
  Scheduling the writer and then the reader of component 7 gives the one edge from
  instruction 1 to instruction 0; the writer is ready, the reader pending.
\<close>

lemmas schedule_example_simps =
  writer_task_def reader_task_def createTask_def OpaqueTask_new_def ModelTaskMetadata_new_def
  blank_memory_def OutOfOrderProcessor_new_def OutOfOrderProcessor_schedule_def
  addReadDependency_def isEligibleForExecution_def Dictionary_isEmpty_def dependencyEdges_def

theorem schedule_sequence_acyclic_witness:
  "metadata writer_task \<noteq> None \<and> metadata reader_task \<noteq> None \<and>
   \<not> isl (scheduleAll [writer_task, reader_task]
            (OutOfOrderProcessor_new blank_memory (ModelData_new :: nat ModelData))) \<and>
   dependencyEdges (projr (scheduleAll [writer_task, reader_task]
            (OutOfOrderProcessor_new blank_memory (ModelData_new :: nat ModelData)))) = [(1, 0)] \<and>
   readyPool (projr (scheduleAll [writer_task, reader_task]
            (OutOfOrderProcessor_new blank_memory (ModelData_new :: nat ModelData)))) = [0] \<and>
   pendingPool (projr (scheduleAll [writer_task, reader_task]
            (OutOfOrderProcessor_new blank_memory (ModelData_new :: nat ModelData)))) = [1] \<and>
   acyclic (set (dependencyEdges (projr (scheduleAll [writer_task, reader_task]
            (OutOfOrderProcessor_new blank_memory (ModelData_new :: nat ModelData))))))"
proof -
  define this where
    "this = projr (scheduleAll [writer_task, reader_task]
              (OutOfOrderProcessor_new blank_memory (ModelData_new :: nat ModelData)))"
  have meta: "metadata writer_task \<noteq> None" "metadata reader_task \<noteq> None"
    by (simp_all add: schedule_example_simps)
  then have "\<forall>t \<in> set [writer_task, reader_task]. metadata t \<noteq> None"
    by simp
  with schedule_sequence_acyclic [of "[writer_task, reader_task]" blank_memory ModelData_new this]
  have run: "scheduleAll [writer_task, reader_task]
               (OutOfOrderProcessor_new blank_memory (ModelData_new :: nat ModelData)) = Inr this"
    unfolding this_def by force
  with schedule_sequence_acyclic [of "[writer_task, reader_task]" blank_memory ModelData_new this]
  have acyc: "acyclic (set (dependencyEdges this))"
    by blast
  have edges: "dependencyEdges this = [(1, 0)]"
    and pools: "readyPool this = [0]" "pendingPool this = [1]"
    unfolding this_def
    by (simp_all add: schedule_example_simps example_simps)
  from meta run acyc edges pools show ?thesis
    by (simp add: this_def [symmetric])
qed

end
